theory Spec2Isabelle
  imports Main "HOL-Library.AList"
begin

section \<open>Data model\<close>

text \<open>
  Go errors. \<open>Err msg\<close> is an error produced outside this package (by the serial library
  or by a caller-supplied ports mapper); \<open>Errorf prefix e\<close> is
  \<^verbatim>\<open>fmt.Errorf(prefix + "%w", e)\<close>, the wrapping done in \<^verbatim>\<open>reset.go\<close> and
  \<^verbatim>\<open>port_mapper.go\<close>. A Go \<^verbatim>\<open>error\<close> result is an \<open>error option\<close>, \<open>None\<close> being
  \<^verbatim>\<open>nil\<close>.
\<close>

datatype error = Err string | Errorf string error

text \<open>
  A \<^verbatim>\<open>map[string]bool\<close> is the list of its entries, in the order in which a
  \<^verbatim>\<open>range\<close> loop visits them (Go leaves that order open; every order is some list).
  \<open>lookup m p\<close> is the Go expression \<^verbatim>\<open>m[p]\<close>: the stored value, and \<^verbatim>\<open>false\<close>
  for a missing key. The \<^verbatim>\<open>nil\<close> map reads like the empty one.
\<close>

type_synonym portmap = "(string \<times> bool) list"

definition lookup :: "portmap \<Rightarrow> string \<Rightarrow> bool" where
  "lookup m p = (case map_of m p of Some b \<Rightarrow> b | None \<Rightarrow> False)"

definition range_keys :: "portmap \<Rightarrow> string list" where
  "range_keys m = map fst m"

definition HasSuffix :: "string \<Rightarrow> string \<Rightarrow> bool" where
  "HasSuffix s suffix =
     (length suffix \<le> length s \<and> drop (length s - length suffix) s = suffix)"

text \<open>
  The argument of a \<^verbatim>\<open>Debug\<close> call. \<^verbatim>\<open>fmt.Sprintf\<close> is kept symbolic: the format
  string and its argument.
\<close>

datatype fmtarg = ArgMap portmap | ArgString string

datatype message = Sprintf string fmtarg | Literal string

text \<open>
  What a run does to the outside, in order: the callbacks it invokes and the operations
  of the serial library it performs.
\<close>

datatype event =
    CallTouchingPort string
  | CallWaitingForNewSerial
  | CallBootloaderPortFound string
  | CallDebug message
  | SerialOpen string nat
  | SerialSetDTR bool
  | SerialClose

text \<open>
  \<^verbatim>\<open>ResetProgressCallbacks\<close>: each field says whether that callback is set (not
  \<^verbatim>\<open>nil\<close>); invoking a callback appends its event to the trace. The \<^verbatim>\<open>cb\<close> pointer
  itself is an option.
\<close>

record ResetProgressCallbacks =
  TouchingPort :: bool
  WaitingForNewSerial :: bool
  BootloaderPortFound :: bool
  Debug :: bool

text \<open>
  The collaborators outside the package: the operating system name, and the results of
  the serial library. \<open>serial_GetPortsList env i\<close> is what the call of
  \<^verbatim>\<open>serial.GetPortsList\<close> returns when \<open>i\<close> enumerations were made before it.
\<close>

record env =
  GOOS :: string
  serial_Open :: "string \<Rightarrow> nat \<Rightarrow> error option"
  serial_SetDTR :: "bool \<Rightarrow> error option"
  serial_GetPortsList :: "nat \<Rightarrow> string list \<times> error option"

text \<open>
  The state a run threads: the monotonic clock read by \<^verbatim>\<open>time.Now\<close>, in milliseconds;
  the results of the enumerations made so far, in order; the variable \<^verbatim>\<open>emulatedPort\<close>
  captured by the dry-run closure; the trace of events. The clock is advanced by
  \<^verbatim>\<open>time.Sleep\<close>, by the duration slept; the time the other statements take is not
  part of the model.
\<close>

record world =
  clock :: nat
  snapshots :: "(portmap \<times> error option) list"
  emulatedPort :: string
  trace :: "event list"

definition emit :: "event \<Rightarrow> world \<Rightarrow> world" where
  "emit e w = w\<lparr>trace := trace w @ [e]\<rparr>"

definition Sleep :: "nat \<Rightarrow> world \<Rightarrow> world" where
  "Sleep ms w = w\<lparr>clock := clock w + ms\<rparr>"

section \<open>port\_mapper.go\<close>

text \<open>
  A \<^verbatim>\<open>PortsMapper\<close> is one of: a caller-supplied function, given by the result of its
  \<open>i\<close>-th invocation; \<^verbatim>\<open>DefaultPortMapper\<close>; the closure that \<^verbatim>\<open>Reset\<close> builds in
  dry-run mode.
\<close>

datatype PortsMapper =
    Supplied "nat \<Rightarrow> portmap \<times> error option"
  | Default
  | Emulator

definition DefaultPortMapper :: "string list \<times> error option \<Rightarrow> portmap \<times> error option" where
  "DefaultPortMapper r =
     (case r of
        (ports, Some err) \<Rightarrow> ([], Some (Errorf ''listing serial ports: '' err))
      | (ports, None) \<Rightarrow>
          (foldl (\<lambda>res port. AList.update port True res) [] ports, None))"

section \<open>reset.go\<close>

definition Touch1200bps :: "env \<Rightarrow> string \<Rightarrow> world \<Rightarrow> error option \<times> world" where
  "Touch1200bps env port w =
     (let w1 = emit (SerialOpen port 1200) w in
      case serial_Open env port 1200 of
        Some err \<Rightarrow> (Some (Errorf ''opening port at 1200bps: '' err), w1)
      | None \<Rightarrow>
          if GOOS env \<noteq> ''windows'' then
            (let w2 = emit (SerialSetDTR False) w1 in
             case serial_SetDTR env False of
               Some err \<Rightarrow> (Some (Errorf ''setting DTR to OFF: '' err), emit SerialClose w2)
             | None \<Rightarrow> (None, Sleep 500 (emit SerialClose w2)))
          else (None, Sleep 500 (emit SerialClose w1)))"

text \<open>The guarded callback invocations \<^verbatim>\<open>if cb != nil && cb.F != nil { cb.F(...) }\<close>.\<close>

definition debug :: "ResetProgressCallbacks option \<Rightarrow> message \<Rightarrow> world \<Rightarrow> world" where
  "debug cb msg w =
     (case cb of
        Some c \<Rightarrow> if Debug c then emit (CallDebug msg) w else w
      | None \<Rightarrow> w)"

definition touchingPort :: "ResetProgressCallbacks option \<Rightarrow> string \<Rightarrow> world \<Rightarrow> world" where
  "touchingPort cb port w =
     (case cb of
        Some c \<Rightarrow> if TouchingPort c then emit (CallTouchingPort port) w else w
      | None \<Rightarrow> w)"

definition waitingForNewSerial :: "ResetProgressCallbacks option \<Rightarrow> world \<Rightarrow> world" where
  "waitingForNewSerial cb w =
     (case cb of
        Some c \<Rightarrow> if WaitingForNewSerial c then emit CallWaitingForNewSerial w else w
      | None \<Rightarrow> w)"

definition bootloaderPortFound :: "ResetProgressCallbacks option \<Rightarrow> string \<Rightarrow> world \<Rightarrow> world" where
  "bootloaderPortFound cb port w =
     (case cb of
        Some c \<Rightarrow> if BootloaderPortFound c then emit (CallBootloaderPortFound port) w else w
      | None \<Rightarrow> w)"

text \<open>
  One invocation \<^verbatim>\<open>portsMapper()\<close>. The dry-run closure (lines 97 to 108) reads and
  updates \<^verbatim>\<open>emulatedPort\<close>. Every invocation records its result in \<open>snapshots\<close>.
\<close>

definition emulator :: "string \<Rightarrow> (portmap \<times> error option) \<times> string" where
  "emulator ep =
     (let res = (if ep \<noteq> '''' then [(ep, True)] else []);
          ep' = (if HasSuffix ep ''999'' then ep @ ''0''
                 else if ep = '''' then ''newport'' else ep)
      in ((res, None), ep'))"

definition record_snapshot :: "portmap \<times> error option \<Rightarrow> world \<Rightarrow> world" where
  "record_snapshot r w = w\<lparr>snapshots := snapshots w @ [r]\<rparr>"

fun portsMapper_call ::
  "env \<Rightarrow> PortsMapper \<Rightarrow> world \<Rightarrow> (portmap \<times> error option) \<times> world" where
  "portsMapper_call env (Supplied f) w =
     (let r = f (length (snapshots w)) in (r, record_snapshot r w))"
| "portsMapper_call env Default w =
     (let r = DefaultPortMapper (serial_GetPortsList env (length (snapshots w)))
      in (r, record_snapshot r w))"
| "portsMapper_call env Emulator w =
     (let (r, ep') = emulator (emulatedPort w)
      in (r, record_snapshot r (w\<lparr>emulatedPort := ep'\<rparr>)))"

text \<open>
  One iteration of the polling loop (lines 148 to 198): it either returns from
  \<^verbatim>\<open>Reset\<close>, or goes on with the new value of \<^verbatim>\<open>last\<close>. The variable \<^verbatim>\<open>last\<close> is
  \<open>lastPorts\<close> here, \<open>last\<close> being a list function of HOL. The first \<^verbatim>\<open>range\<close> loop only
  asks whether some key of \<open>now\<close> is new; the second returns the first new key of
  \<open>check\<close> in the order of the iteration.
\<close>

datatype step = Return "string \<times> error option" world | Continue portmap world

definition poll ::
  "env \<Rightarrow> PortsMapper \<Rightarrow> ResetProgressCallbacks option \<Rightarrow> portmap \<Rightarrow> world \<Rightarrow> step" where
  "poll env pm cb lastPorts w =
     (case portsMapper_call env pm w of
        ((now, Some err), w1) \<Rightarrow> Return ('''', Some err) w1
      | ((now, None), w1) \<Rightarrow>
          (let w2 = debug cb (Sprintf ''WAIT: %v'' (ArgMap now)) w1;
               hasNewPorts = list_ex (\<lambda>p. \<not> lookup lastPorts p) (range_keys now)
           in if hasNewPorts then
                (let w3 = debug cb (Literal ''New ports found!'') w2;
                     w4 = Sleep 1000 w3
                 in case portsMapper_call env pm w4 of
                      ((check, Some err), w5) \<Rightarrow> Return ('''', Some err) w5
                    | ((check, None), w5) \<Rightarrow>
                        (let w6 = debug cb (Sprintf ''CHECK: %v'' (ArgMap check)) w5
                         in case find (\<lambda>p. \<not> lookup lastPorts p) (range_keys check) of
                              Some p \<Rightarrow> Return (p, None) (bootloaderPortFound cb p w6)
                            | None \<Rightarrow>
                                Continue now
                                  (Sleep 250
                                    (debug cb (Literal ''Port check failed... still waiting'') w6))))
              else Continue now (Sleep 250 w2)))"

lemma clock_emit [simp]: "clock (emit e w) = clock w"
  by (simp add: emit_def)

lemma clock_Sleep [simp]: "clock (Sleep ms w) = clock w + ms"
  by (simp add: Sleep_def)

lemma clock_debug [simp]: "clock (debug cb msg w) = clock w"
  by (simp add: debug_def split: option.splits)

lemma clock_touchingPort [simp]: "clock (touchingPort cb p w) = clock w"
  by (simp add: touchingPort_def split: option.splits)

lemma clock_waitingForNewSerial [simp]: "clock (waitingForNewSerial cb w) = clock w"
  by (simp add: waitingForNewSerial_def split: option.splits)

lemma clock_bootloaderPortFound [simp]: "clock (bootloaderPortFound cb p w) = clock w"
  by (simp add: bootloaderPortFound_def split: option.splits)

lemma clock_record_snapshot [simp]: "clock (record_snapshot r w) = clock w"
  by (simp add: record_snapshot_def)

lemma clock_portsMapper_call [simp]: "clock (snd (portsMapper_call env pm w)) = clock w"
  by (cases pm) (simp_all add: Let_def split: prod.splits)

lemma poll_Continue_clock:
  assumes "poll env pm cb lastPorts w = Continue now w'"
  shows "clock w + 250 \<le> clock w'"
proof -
  obtain r1 w1 where c1: "portsMapper_call env pm w = (r1, w1)"
    by (cases "portsMapper_call env pm w")
  have k1: "clock w1 = clock w"
    using clock_portsMapper_call [of env pm w] c1 by simp
  obtain r2 w5 where c2:
    "portsMapper_call env pm
       (Sleep 1000 (debug cb (Literal ''New ports found!'')
          (debug cb (Sprintf ''WAIT: %v'' (ArgMap (fst r1))) w1))) = (r2, w5)"
    by (cases "portsMapper_call env pm
       (Sleep 1000 (debug cb (Literal ''New ports found!'')
          (debug cb (Sprintf ''WAIT: %v'' (ArgMap (fst r1))) w1)))")
  have k2: "clock w5 = clock w + 1000"
    using clock_portsMapper_call [of env pm
       "Sleep 1000 (debug cb (Literal ''New ports found!'')
          (debug cb (Sprintf ''WAIT: %v'' (ArgMap (fst r1))) w1))"] c2 k1 by simp
  show ?thesis
    using assms c1 c2 k1 k2
    by (cases r1; cases r2)
       (auto simp: poll_def Let_def split: option.splits if_splits)
qed

text \<open>
  The loop \<^verbatim>\<open>for time.Now().Before(deadline) { ... }\<close> and what follows it (lines 147
  to 204).
\<close>

function wait_loop ::
  "env \<Rightarrow> PortsMapper \<Rightarrow> ResetProgressCallbacks option \<Rightarrow> nat \<Rightarrow> portmap \<Rightarrow> world
     \<Rightarrow> (string \<times> error option) \<times> world" where
  "wait_loop env pm cb deadline lastPorts w =
     (if clock w < deadline then
        (case poll env pm cb lastPorts w of
           Return r w' \<Rightarrow> (r, w')
         | Continue now w' \<Rightarrow> wait_loop env pm cb deadline now w')
      else (('''', None), bootloaderPortFound cb '''' w))"
  by pat_completeness auto
termination
proof (relation "measure (\<lambda>(env, pm, cb, deadline, lastPorts, w). deadline - clock w)")
  show "wf (measure (\<lambda>(env, pm, cb, deadline, lastPorts, w). deadline - clock w))"
    by simp
next
  fix env pm cb deadline lastPorts w now w'
  assume "clock w < deadline" and "poll env pm cb lastPorts w = Continue now w'"
  then show "((env, pm, cb, deadline, now, w'), (env, pm, cb, deadline, lastPorts, w))
      \<in> measure (\<lambda>(env, pm, cb, deadline, lastPorts, w). deadline - clock w)"
    using poll_Continue_clock [of env pm cb lastPorts w now w'] by simp
qed

declare wait_loop.simps [simp del]

text \<open>Lines 135 to 204: the early return when not waiting, the deadline, the loop.\<close>

definition wait_phase ::
  "env \<Rightarrow> PortsMapper \<Rightarrow> ResetProgressCallbacks option \<Rightarrow> bool \<Rightarrow> bool \<Rightarrow> portmap \<Rightarrow> world
     \<Rightarrow> (string \<times> error option) \<times> world" where
  "wait_phase env pm cb wait dryRun lastPorts w =
     (if \<not> wait then (('''', None), w)
      else
        (let w1 = waitingForNewSerial cb w;
             deadline = (if dryRun then clock w1 + 100 else clock w1 + 10000)
         in wait_loop env pm cb deadline lastPorts w1))"

text \<open>
  Lines 119 to 133: the touch. The result is the error \<^verbatim>\<open>Reset\<close> returns at line 130,
  if it does.
\<close>

definition touch_phase ::
  "env \<Rightarrow> ResetProgressCallbacks option \<Rightarrow> string \<Rightarrow> bool \<Rightarrow> bool \<Rightarrow> portmap \<Rightarrow> world
     \<Rightarrow> error option \<times> world" where
  "touch_phase env cb portToTouch wait dryRun lastPorts w =
     (if portToTouch \<noteq> '''' \<and> lookup lastPorts portToTouch then
        (let w1 = debug cb (Sprintf ''TOUCH: %v'' (ArgString portToTouch)) w;
             w2 = touchingPort cb portToTouch w1
         in if dryRun then (None, w2)
            else
              (case Touch1200bps env portToTouch w2 of
                 (Some err, w3) \<Rightarrow>
                   if \<not> wait then (Some (Errorf ''1200-bps touch: '' err), w3)
                   else (None, w3)
               | (None, w3) \<Rightarrow> (None, w3)))
      else (None, w))"

text \<open>Lines 92 to 109: which ports mapper the run uses, and the closure's variable.\<close>

definition select_mapper ::
  "bool \<Rightarrow> (nat \<Rightarrow> portmap \<times> error option) option \<Rightarrow> PortsMapper" where
  "select_mapper dryRun portsMapper =
     (if dryRun then Emulator
      else case portsMapper of None \<Rightarrow> Default | Some f \<Rightarrow> Supplied f)"

definition Reset ::
  "env \<Rightarrow> string \<Rightarrow> bool \<Rightarrow> bool \<Rightarrow> (nat \<Rightarrow> portmap \<times> error option) option
     \<Rightarrow> ResetProgressCallbacks option \<Rightarrow> world \<Rightarrow> (string \<times> error option) \<times> world" where
  "Reset env portToTouch wait dryRun portsMapper cb w =
     (let pm = select_mapper dryRun portsMapper;
          w0 = (if dryRun then w\<lparr>emulatedPort := portToTouch\<rparr> else w)
      in case portsMapper_call env pm w0 of
           ((lastPorts, err), w1) \<Rightarrow>
             (let w2 = debug cb (Sprintf ''LAST: %v'' (ArgMap lastPorts)) w1
              in case err of
                   Some e \<Rightarrow> (('''', Some e), w2)
                 | None \<Rightarrow>
                     (case touch_phase env cb portToTouch wait dryRun lastPorts w2 of
                        (Some e, w3) \<Rightarrow> (('''', Some e), w3)
                      | (None, w3) \<Rightarrow> wait_phase env pm cb wait dryRun lastPorts w3)))"

section \<open>Describing the outcome of a run\<close>

text \<open>
  How a waiting run can end, read off the enumeration results \<open>new\<close> it has added to
  \<open>snapshots\<close>: the deadline passed; an enumeration failed (necessarily the last one);
  a new port was flagged in a snapshot \<open>now\<close> and a port new against the same baseline
  was in the following snapshot \<open>check\<close>. \<open>baseline_before\<close> locates the baseline of
  an iteration: the value of \<^verbatim>\<open>last\<close> the loop started with, or the first snapshot of
  the iteration before.
\<close>

definition timed_out ::
  "ResetProgressCallbacks option \<Rightarrow> nat \<Rightarrow> string \<times> error option \<Rightarrow> world
     \<Rightarrow> (portmap \<times> error option) list \<Rightarrow> bool" where
  "timed_out cb deadline r w' new \<longleftrightarrow>
     r = ('''', None) \<and> (\<forall>s \<in> set new. snd s = None) \<and> deadline \<le> clock w' \<and>
     (\<exists>w''. w' = bootloaderPortFound cb '''' w'')"

definition enumeration_failed ::
  "string \<times> error option \<Rightarrow> (portmap \<times> error option) list \<Rightarrow> bool" where
  "enumeration_failed r new \<longleftrightarrow>
     (\<exists>ok m e. r = ('''', Some e) \<and> new = ok @ [(m, Some e)] \<and> (\<forall>s \<in> set ok. snd s = None))"

definition baseline_before ::
  "portmap \<Rightarrow> (portmap \<times> error option) list \<Rightarrow> portmap \<Rightarrow> bool" where
  "baseline_before lastPorts mid base \<longleftrightarrow>
     (mid = [] \<and> base = lastPorts) \<or> (\<exists>m. mid = m @ [(base, None)])
       \<or> (\<exists>m c. mid = m @ [(base, None), (c, None)])"

definition found_stable ::
  "ResetProgressCallbacks option \<Rightarrow> portmap \<Rightarrow> string \<times> error option \<Rightarrow> world
     \<Rightarrow> (portmap \<times> error option) list \<Rightarrow> bool" where
  "found_stable cb lastPorts r w' new \<longleftrightarrow>
     (\<exists>mid base now check p w''. r = (p, None) \<and>
        new = mid @ [(now, None), (check, None)] \<and>
        (\<forall>s \<in> set mid. snd s = None) \<and>
        baseline_before lastPorts mid base \<and>
        (\<exists>q \<in> set (range_keys now). \<not> lookup base q) \<and>
        p \<in> set (range_keys check) \<and> \<not> lookup base p \<and>
        w' = bootloaderPortFound cb p w'')"

text \<open>
  \<open>nth_emulated n ep\<close> is what the dry-run closure returns at its invocation number
  \<open>n\<close> (counted from 0) when \<^verbatim>\<open>emulatedPort\<close> starts as \<open>ep\<close>, that is as the
  target port.
\<close>

fun nth_emulated :: "nat \<Rightarrow> string \<Rightarrow> portmap \<times> error option" where
  "nth_emulated 0 ep = fst (emulator ep)"
| "nth_emulated (Suc n) ep = nth_emulated n (snd (emulator ep))"

section \<open>Example environments and runs\<close>

text \<open>
  Concrete inputs for the witnesses and counterexamples: a Linux host on which every
  serial operation succeeds, and variants on which clearing DTR or opening the port
  fails; a fresh world; callback sets; caller-supplied ports mappers, given by the result
  of each invocation.
\<close>

definition linux :: env where
  "linux = \<lparr>GOOS = ''linux'', serial_Open = (\<lambda>port baud. None),
             serial_SetDTR = (\<lambda>b. None), serial_GetPortsList = (\<lambda>i. ([], None))\<rparr>"

definition idle :: world where
  "idle = \<lparr>clock = 0, snapshots = [], emulatedPort = '''', trace = []\<rparr>"

definition all_callbacks :: ResetProgressCallbacks where
  "all_callbacks = \<lparr>TouchingPort = True, WaitingForNewSerial = True,
                     BootloaderPortFound = True, Debug = True\<rparr>"

definition other_port_script :: "nat \<Rightarrow> portmap \<times> error option" where
  "other_port_script i =
     (if i = 1 then ([(''a'', True)], None)
      else if i = 2 then ([(''b'', True)], None) else ([], None))"

definition failing_script :: "nat \<Rightarrow> portmap \<times> error option" where
  "failing_script i =
     (if i = 0 then ([], None) else ([], Some (Err ''enumeration failed'')))"

definition dtr_fails :: env where
  "dtr_fails = linux\<lparr>serial_SetDTR := (\<lambda>b. Some (Err ''SetDTR failed''))\<rparr>"

definition open_fails :: env where
  "open_fails = linux\<lparr>serial_Open := (\<lambda>port baud. Some (Err ''Open failed''))\<rparr>"


definition glitch_script :: "nat \<Rightarrow> portmap \<times> error option" where
  "glitch_script i = (if i = 0 then ([(''a'', True)], None) else ([], None))"

definition new_port_script :: "nat \<Rightarrow> portmap \<times> error option" where
  "new_port_script i =
     (if i = 0 then ([(''a'', True)], None) else ([(''a'', True), (''b'', True)], None))"

definition reappearing_script :: "nat \<Rightarrow> portmap \<times> error option" where
  "reappearing_script i =
     (if i = 1 \<or> i = 3 then ([(''a'', True)], None)
      else if i = 4 then ([], Some (Err ''enumeration failed'')) else ([], None))"

definition debug_only :: ResetProgressCallbacks where
  "debug_only = \<lparr>TouchingPort = False, WaitingForNewSerial = False,
                  BootloaderPortFound = False, Debug = True\<rparr>"

lemmas run_defs =
  Reset_def select_mapper_def touch_phase_def wait_phase_def wait_loop.simps poll_def
  Touch1200bps_def emulator_def HasSuffix_def DefaultPortMapper_def
  lookup_def range_keys_def debug_def touchingPort_def waitingForNewSerial_def
  bootloaderPortFound_def emit_def Sleep_def record_snapshot_def Let_def

lemmas example_defs = linux_def idle_def all_callbacks_def

section \<open>Auxiliary facts\<close>

lemma snapshots_emit [simp]: "snapshots (emit e w) = snapshots w"
  by (simp add: emit_def)

lemma snapshots_Sleep [simp]: "snapshots (Sleep ms w) = snapshots w"
  by (simp add: Sleep_def)

lemma snapshots_debug [simp]: "snapshots (debug cb msg w) = snapshots w"
  by (simp add: debug_def split: option.splits)

lemma snapshots_touchingPort [simp]: "snapshots (touchingPort cb p w) = snapshots w"
  by (simp add: touchingPort_def split: option.splits)

lemma snapshots_waitingForNewSerial [simp]:
  "snapshots (waitingForNewSerial cb w) = snapshots w"
  by (simp add: waitingForNewSerial_def split: option.splits)

lemma snapshots_bootloaderPortFound [simp]:
  "snapshots (bootloaderPortFound cb p w) = snapshots w"
  by (simp add: bootloaderPortFound_def split: option.splits)

lemma snapshots_portsMapper_call:
  "portsMapper_call env pm w = (r, w') \<Longrightarrow> snapshots w' = snapshots w @ [r]"
  by (cases pm) (auto simp: Let_def record_snapshot_def split: prod.splits)

lemma clock_portsMapper_call_eq:
  "portsMapper_call env pm w = (r, w') \<Longrightarrow> clock w' = clock w"
  using clock_portsMapper_call [of env pm w] by simp

lemma snapshots_Touch1200bps [simp]:
  "snapshots (snd (Touch1200bps env port w)) = snapshots w"
  by (simp add: Touch1200bps_def Let_def split: option.splits)

text \<open>The ways one iteration can end.\<close>

lemma poll_cases:
  obtains
    (now_failed) now e w1 where
      "portsMapper_call env pm w = ((now, Some e), w1)"
      "poll env pm cb lastPorts w = Return ('''', Some e) w1"
  | (nothing_new) now w1 where
      "portsMapper_call env pm w = ((now, None), w1)"
      "\<not> list_ex (\<lambda>p. \<not> lookup lastPorts p) (range_keys now)"
      "poll env pm cb lastPorts w =
         Continue now (Sleep 250 (debug cb (Sprintf ''WAIT: %v'' (ArgMap now)) w1))"
  | (check_failed) now w1 check e w5 where
      "portsMapper_call env pm w = ((now, None), w1)"
      "list_ex (\<lambda>p. \<not> lookup lastPorts p) (range_keys now)"
      "portsMapper_call env pm
         (Sleep 1000 (debug cb (Literal ''New ports found!'')
            (debug cb (Sprintf ''WAIT: %v'' (ArgMap now)) w1))) = ((check, Some e), w5)"
      "poll env pm cb lastPorts w = Return ('''', Some e) w5"
  | (found) now w1 check w5 p where
      "portsMapper_call env pm w = ((now, None), w1)"
      "list_ex (\<lambda>p. \<not> lookup lastPorts p) (range_keys now)"
      "portsMapper_call env pm
         (Sleep 1000 (debug cb (Literal ''New ports found!'')
            (debug cb (Sprintf ''WAIT: %v'' (ArgMap now)) w1))) = ((check, None), w5)"
      "find (\<lambda>p. \<not> lookup lastPorts p) (range_keys check) = Some p"
      "poll env pm cb lastPorts w =
         Return (p, None)
           (bootloaderPortFound cb p (debug cb (Sprintf ''CHECK: %v'' (ArgMap check)) w5))"
  | (glitch) now w1 check w5 where
      "portsMapper_call env pm w = ((now, None), w1)"
      "list_ex (\<lambda>p. \<not> lookup lastPorts p) (range_keys now)"
      "portsMapper_call env pm
         (Sleep 1000 (debug cb (Literal ''New ports found!'')
            (debug cb (Sprintf ''WAIT: %v'' (ArgMap now)) w1))) = ((check, None), w5)"
      "find (\<lambda>p. \<not> lookup lastPorts p) (range_keys check) = None"
      "poll env pm cb lastPorts w =
         Continue now
           (Sleep 250 (debug cb (Literal ''Port check failed... still waiting'')
              (debug cb (Sprintf ''CHECK: %v'' (ArgMap check)) w5)))"
proof -
  obtain now e1 w1 where c1: "portsMapper_call env pm w = ((now, e1), w1)"
    by (metis prod.exhaust)
  obtain check e2 w5 where c2:
    "portsMapper_call env pm
       (Sleep 1000 (debug cb (Literal ''New ports found!'')
          (debug cb (Sprintf ''WAIT: %v'' (ArgMap now)) w1))) = ((check, e2), w5)"
    by (metis prod.exhaust)
  show ?thesis
  proof (cases e1)
    case (Some e)
    with c1 show ?thesis
      by (intro now_failed [of now e w1]) (simp_all add: poll_def)
  next
    case None
    note n1 = this
    show ?thesis
    proof (cases "list_ex (\<lambda>p. \<not> lookup lastPorts p) (range_keys now)")
      case False
      with c1 n1 show ?thesis
        by (intro nothing_new [of now w1]) (simp_all add: poll_def)
    next
      case True
      note new = this
      show ?thesis
      proof (cases e2)
        case (Some e)
        with c1 c2 n1 new show ?thesis
          by (intro check_failed [of now w1 check e w5]) (simp_all add: poll_def)
      next
        case None
        note n2 = this
        show ?thesis
        proof (cases "find (\<lambda>p. \<not> lookup lastPorts p) (range_keys check)")
          case None
          with c1 c2 n1 n2 new show ?thesis
            by (intro glitch [of now w1 check w5]) (simp_all add: poll_def)
        next
          case (Some p)
          with c1 c2 n1 n2 new show ?thesis
            by (intro found [of now w1 check w5 p]) (simp_all add: poll_def)
        qed
      qed
    qed
  qed
qed

lemma enumeration_failedI:
  "\<forall>s \<in> set ok. snd s = None \<Longrightarrow> enumeration_failed ('''', Some e) (ok @ [(m, Some e)])"
  unfolding enumeration_failed_def
  by (rule exI [of _ ok], rule exI [of _ m], rule exI [of _ e]) simp

lemma found_stableI:
  assumes "\<forall>s \<in> set mid. snd s = None" and "baseline_before lastPorts mid base"
    and "q \<in> set (range_keys now)" and "\<not> lookup base q"
    and "p \<in> set (range_keys check)" and "\<not> lookup base p"
  shows "found_stable cb lastPorts (p, None) (bootloaderPortFound cb p w'')
           (mid @ [(now, None), (check, None)])"
  unfolding found_stable_def
  apply (rule exI [of _ mid], rule exI [of _ base], rule exI [of _ now],
      rule exI [of _ check], rule exI [of _ p], rule exI [of _ w''])
  using assms by (intro conjI bexI [of _ q]) simp_all

lemma timed_out_extend:
  "timed_out cb deadline r w' new \<Longrightarrow> \<forall>s \<in> set pre. snd s = None
     \<Longrightarrow> timed_out cb deadline r w' (pre @ new)"
  unfolding timed_out_def by auto

lemma enumeration_failed_extend:
  assumes "enumeration_failed r new" and "\<forall>s \<in> set pre. snd s = None"
  shows "enumeration_failed r (pre @ new)"
proof -
  from assms(1) obtain ok m e where
    h: "r = ('''', Some e)" "new = ok @ [(m, Some e)]" "\<forall>s \<in> set ok. snd s = None"
    unfolding enumeration_failed_def by blast
  have "pre @ new = (pre @ ok) @ [(m, Some e)]" using h(2) by simp
  moreover have "\<forall>s \<in> set (pre @ ok). snd s = None" using h(3) assms(2) by auto
  ultimately show ?thesis
    using h(1) enumeration_failedI [of "pre @ ok" e m] by simp
qed

lemma baseline_before_extend:
  assumes "baseline_before now mid base"
    and "pre = [(now, None)] \<or> pre = [(now, None), (c, None)]"
  shows "baseline_before lastPorts (pre @ mid) base"
proof -
  from assms(1) consider "mid = []" "base = now" | m where "mid = m @ [(base, None)]"
    | m c' where "mid = m @ [(base, None), (c', None)]"
    unfolding baseline_before_def by blast
  then show ?thesis
  proof cases
    case 1
    from assms(2) show ?thesis
    proof
      assume "pre = [(now, None)]"
      with 1 have "pre @ mid = [] @ [(base, None)]" by simp
      then show ?thesis unfolding baseline_before_def by blast
    next
      assume "pre = [(now, None), (c, None)]"
      with 1 have "pre @ mid = [] @ [(base, None), (c, None)]" by simp
      then show ?thesis unfolding baseline_before_def by blast
    qed
  next
    case 2
    then have "pre @ mid = (pre @ m) @ [(base, None)]" by simp
    then show ?thesis unfolding baseline_before_def by blast
  next
    case 3
    then have "pre @ mid = (pre @ m) @ [(base, None), (c', None)]" by simp
    then show ?thesis unfolding baseline_before_def by blast
  qed
qed

lemma found_stable_extend:
  assumes "found_stable cb now r w' new"
    and "pre = [(now, None)] \<or> pre = [(now, None), (c, None)]"
  shows "found_stable cb lastPorts r w' (pre @ new)"
proof -
  from assms(1) obtain mid base now' check p w'' where
    h: "r = (p, None)" "new = mid @ [(now', None), (check, None)]"
       "\<forall>s \<in> set mid. snd s = None" "baseline_before now mid base"
       "\<exists>q \<in> set (range_keys now'). \<not> lookup base q"
       "p \<in> set (range_keys check)" "\<not> lookup base p"
       "w' = bootloaderPortFound cb p w''"
    unfolding found_stable_def by blast
  have a: "pre @ new = (pre @ mid) @ [(now', None), (check, None)]"
    using h(2) by simp
  have b: "\<forall>s \<in> set (pre @ mid). snd s = None"
    using h(3) assms(2) by auto
  have c: "baseline_before lastPorts (pre @ mid) base"
    using h(4) assms(2) by (rule baseline_before_extend)
  from h(5) obtain q where q: "q \<in> set (range_keys now')" "\<not> lookup base q"
    by blast
  show ?thesis
    using found_stableI [of "pre @ mid" lastPorts base q now' p check cb w'']
      b c q h(6) h(7) h(1) h(8) a by simp
qed

lemma poll_Return_outcome:
  assumes "poll env pm cb lastPorts w = Return r w'"
  shows "\<exists>new. snapshots w' = snapshots w @ new \<and>
           (enumeration_failed r new \<or> found_stable cb lastPorts r w' new)"
proof (cases rule: poll_cases [of env pm w cb lastPorts])
  case (now_failed now e w1)
  with assms have r: "r = ('''', Some e)" and w': "w' = w1" by simp_all
  have "snapshots w' = snapshots w @ [(now, Some e)]"
    using snapshots_portsMapper_call [OF now_failed(1)] w' by simp
  moreover have "enumeration_failed r [(now, Some e)]"
    using enumeration_failedI [of "[]" e now] r by simp
  ultimately show ?thesis by blast
next
  case (check_failed now w1 check e w5)
  with assms have r: "r = ('''', Some e)" and w': "w' = w5" by simp_all
  have "snapshots w' = snapshots w @ [(now, None), (check, Some e)]"
    using snapshots_portsMapper_call [OF check_failed(1)]
      snapshots_portsMapper_call [OF check_failed(3)] w' by simp
  moreover have "enumeration_failed r [(now, None), (check, Some e)]"
    using enumeration_failedI [of "[(now, None)]" e check] r by simp
  ultimately show ?thesis by blast
next
  case (found now w1 check w5 p)
  with assms have r: "r = (p, None)"
    and w': "w' = bootloaderPortFound cb p (debug cb (Sprintf ''CHECK: %v'' (ArgMap check)) w5)"
    by simp_all
  have s: "snapshots w' = snapshots w @ [(now, None), (check, None)]"
    using snapshots_portsMapper_call [OF found(1)]
      snapshots_portsMapper_call [OF found(3)] w' by simp
  from found(2) obtain q where q: "q \<in> set (range_keys now)" "\<not> lookup lastPorts q"
    by (auto simp: list_ex_iff)
  have p: "p \<in> set (range_keys check)" "\<not> lookup lastPorts p"
    using found(4) by (auto simp: find_Some_iff)
  have b: "baseline_before lastPorts [] lastPorts"
    unfolding baseline_before_def by simp
  have "found_stable cb lastPorts r w' [(now, None), (check, None)]"
    using found_stableI [of "[]" lastPorts lastPorts q now p check cb
        "debug cb (Sprintf ''CHECK: %v'' (ArgMap check)) w5"] b q p r w' by simp
  with s show ?thesis by blast
next
  case (nothing_new now w1)
  with assms show ?thesis by simp
next
  case (glitch now w1 check w5)
  with assms show ?thesis by simp
qed

lemma poll_Continue_snapshots:
  assumes "poll env pm cb lastPorts w = Continue now w'"
  shows "\<exists>pre. snapshots w' = snapshots w @ pre \<and>
           (pre = [(now, None)] \<or> (\<exists>c. pre = [(now, None), (c, None)]))"
proof (cases rule: poll_cases [of env pm w cb lastPorts])
  case (nothing_new now' w1)
  with assms have "now' = now"
    and "w' = Sleep 250 (debug cb (Sprintf ''WAIT: %v'' (ArgMap now')) w1)" by auto
  then show ?thesis
    using snapshots_portsMapper_call [OF nothing_new(1)] by simp
next
  case (glitch now' w1 check w5)
  with assms have "now' = now"
    and "w' = Sleep 250 (debug cb (Literal ''Port check failed... still waiting'')
              (debug cb (Sprintf ''CHECK: %v'' (ArgMap check)) w5))" by auto
  then show ?thesis
    using snapshots_portsMapper_call [OF glitch(1)]
      snapshots_portsMapper_call [OF glitch(3)] by simp
next
  case (now_failed now e w1)
  with assms show ?thesis by simp
next
  case (check_failed now w1 check e w5)
  with assms show ?thesis by simp
next
  case (found now w1 check w5 p)
  with assms show ?thesis by simp
qed

lemma wait_loop_outcome:
  assumes "wait_loop env pm cb deadline lastPorts w = (r, w')"
  shows "\<exists>new. snapshots w' = snapshots w @ new \<and>
           (timed_out cb deadline r w' new \<or> enumeration_failed r new
              \<or> found_stable cb lastPorts r w' new)"
  using assms
proof (induction env pm cb deadline lastPorts w rule: wait_loop.induct)
  case (1 env pm cb deadline lastPorts w)
  show ?case
  proof (cases "clock w < deadline")
    case False
    with "1.prems" have "r = ('''', None)" and "w' = bootloaderPortFound cb '''' w"
      by (simp_all add: wait_loop.simps)
    with False have "timed_out cb deadline r w' []"
      unfolding timed_out_def by auto
    moreover have "snapshots w' = snapshots w @ []"
      using \<open>w' = bootloaderPortFound cb '''' w\<close> by simp
    ultimately show ?thesis by blast
  next
    case True
    note before = this
    show ?thesis
    proof (cases "poll env pm cb lastPorts w")
      case (Return r0 w0)
      with before "1.prems" have "r0 = r" and "w0 = w'"
        by (simp_all add: wait_loop.simps)
      with Return poll_Return_outcome [of env pm cb lastPorts w r w'] show ?thesis
        by blast
    next
      case (Continue now w1)
      have rec: "wait_loop env pm cb deadline now w1 = (r, w')"
        using before "1.prems" Continue by (simp add: wait_loop.simps)
      from poll_Continue_snapshots [OF Continue] obtain pre where
        pre: "snapshots w1 = snapshots w @ pre"
          "pre = [(now, None)] \<or> (\<exists>c. pre = [(now, None), (c, None)])"
        by blast
      then have ok: "\<forall>s \<in> set pre. snd s = None" by auto
      from "1.IH" [OF before Continue rec] obtain new where
        n: "snapshots w' = snapshots w1 @ new" and
        d: "timed_out cb deadline r w' new \<or> enumeration_failed r new
              \<or> found_stable cb now r w' new"
        by blast
      have s: "snapshots w' = snapshots w @ (pre @ new)"
        using n pre(1) by simp
      from pre(2) obtain c where
        pre': "pre = [(now, None)] \<or> pre = [(now, None), (c, None)]" by blast
      from d have "timed_out cb deadline r w' (pre @ new) \<or> enumeration_failed r (pre @ new)
              \<or> found_stable cb lastPorts r w' (pre @ new)"
        using timed_out_extend [OF _ ok] enumeration_failed_extend [OF _ ok]
          found_stable_extend [OF _ pre'] by blast
      with s show ?thesis by blast
    qed
  qed
qed

lemma touch_phase_wait:
  "\<exists>w3. touch_phase env cb portToTouch True dryRun lastPorts w = (None, w3) \<and>
        snapshots w3 = snapshots w \<and> clock w \<le> clock w3"
proof (cases "portToTouch \<noteq> '''' \<and> lookup lastPorts portToTouch \<and> \<not> dryRun")
  case False
  then show ?thesis
    by (auto simp: touch_phase_def Let_def)
next
  case True
  let ?w2 = "touchingPort cb portToTouch
               (debug cb (Sprintf ''TOUCH: %v'' (ArgString portToTouch)) w)"
  obtain r w3 where t: "Touch1200bps env portToTouch ?w2 = (r, w3)"
    by (metis prod.exhaust)
  have s: "snapshots w3 = snapshots w"
    using snapshots_Touch1200bps [of env portToTouch ?w2] t by simp
  have c: "clock w \<le> clock w3"
    using t by (auto simp: Touch1200bps_def Let_def split: option.splits if_splits)
  from True t have "touch_phase env cb portToTouch True dryRun lastPorts w = (None, w3)"
    by (cases r) (simp_all add: touch_phase_def Let_def)
  with s c show ?thesis by blast
qed

lemma touch_phase_snapshots:
  "snapshots (snd (touch_phase env cb portToTouch wait dryRun lastPorts w)) = snapshots w"
proof -
  let ?w2 = "touchingPort cb portToTouch
               (debug cb (Sprintf ''TOUCH: %v'' (ArgString portToTouch)) w)"
  obtain r w3 where t: "Touch1200bps env portToTouch ?w2 = (r, w3)"
    by (metis prod.exhaust)
  have s: "snapshots w3 = snapshots w"
    using snapshots_Touch1200bps [of env portToTouch ?w2] t by simp
  show ?thesis
    using t s by (cases r) (simp_all add: touch_phase_def Let_def)
qed

text \<open>The first enumeration of a run, from the world in which the closure is set up.\<close>

lemma Reset_first_failed:
  assumes "portsMapper_call env (select_mapper dryRun portsMapper)
             (if dryRun then w\<lparr>emulatedPort := portToTouch\<rparr> else w) = ((lastPorts, Some e), w1)"
  shows "Reset env portToTouch wait dryRun portsMapper cb w =
           (('''', Some e), debug cb (Sprintf ''LAST: %v'' (ArgMap lastPorts)) w1)"
  using assms by (simp add: Reset_def Let_def)

lemma Reset_first_ok:
  assumes "portsMapper_call env (select_mapper dryRun portsMapper)
             (if dryRun then w\<lparr>emulatedPort := portToTouch\<rparr> else w) = ((lastPorts, None), w1)"
  shows "Reset env portToTouch wait dryRun portsMapper cb w =
           (case touch_phase env cb portToTouch wait dryRun lastPorts
                   (debug cb (Sprintf ''LAST: %v'' (ArgMap lastPorts)) w1) of
              (Some e, w3) \<Rightarrow> (('''', Some e), w3)
            | (None, w3) \<Rightarrow>
                wait_phase env (select_mapper dryRun portsMapper) cb wait dryRun lastPorts w3)"
  using assms by (simp add: Reset_def Let_def)

lemma Reset_wait_outcome:
  assumes "Reset env portToTouch True dryRun portsMapper cb w = (r, w')"
  shows "\<exists>new. snapshots w' = snapshots w @ new \<and>
           (timed_out cb (clock w + (if dryRun then 100 else 10000)) r w' new
              \<or> enumeration_failed r new
              \<or> (\<exists>lastPorts rest. new = (lastPorts, None) # rest \<and>
                    found_stable cb lastPorts r w' rest))"
proof -
  let ?pm = "select_mapper dryRun portsMapper"
  let ?w0 = "if dryRun then w\<lparr>emulatedPort := portToTouch\<rparr> else w"
  obtain lastPorts err w1 where first: "portsMapper_call env ?pm ?w0 = ((lastPorts, err), w1)"
    by (metis prod.exhaust)
  have s1: "snapshots w1 = snapshots w @ [(lastPorts, err)]"
    using snapshots_portsMapper_call [OF first] by (simp split: if_splits)
  have c1: "clock w1 = clock w"
    using clock_portsMapper_call_eq [OF first] by (simp split: if_splits)
  let ?w2 = "debug cb (Sprintf ''LAST: %v'' (ArgMap lastPorts)) w1"
  show ?thesis
  proof (cases err)
    case (Some e)
    with assms Reset_first_failed [OF first [unfolded Some], of True cb]
    have "r = ('''', Some e)" and "w' = ?w2" by simp_all
    then have "snapshots w' = snapshots w @ [(lastPorts, Some e)]"
      and "enumeration_failed r [(lastPorts, Some e)]"
      using s1 Some enumeration_failedI [of "[]" e lastPorts] by simp_all
    then show ?thesis by blast
  next
    case None
    from touch_phase_wait [of env cb portToTouch dryRun lastPorts ?w2] obtain w3 where
      t: "touch_phase env cb portToTouch True dryRun lastPorts ?w2 = (None, w3)"
      and s3: "snapshots w3 = snapshots ?w2" and c3: "clock ?w2 \<le> clock w3"
      by blast
    let ?w4 = "waitingForNewSerial cb w3"
    let ?d = "if dryRun then clock ?w4 + 100 else clock ?w4 + 10000"
    have loop: "wait_loop env ?pm cb ?d lastPorts ?w4 = (r, w')"
      using Reset_first_ok [OF first [unfolded None], of True cb] t assms
      by (simp add: wait_phase_def Let_def)
    from wait_loop_outcome [OF loop] obtain new where
      n: "snapshots w' = snapshots ?w4 @ new" and
      d: "timed_out cb ?d r w' new \<or> enumeration_failed r new
            \<or> found_stable cb lastPorts r w' new"
      by blast
    have s: "snapshots w' = snapshots w @ ([(lastPorts, None)] @ new)"
      using n s3 s1 None by simp
    have ok: "\<forall>s \<in> set [(lastPorts, None :: error option)]. snd s = None" by simp
    have le: "clock w + (if dryRun then 100 else 10000) \<le> ?d"
      using c3 c1 by simp
    have t': "timed_out cb ?d r w' new
          \<Longrightarrow> timed_out cb (clock w + (if dryRun then 100 else 10000)) r w' new"
      using le unfolding timed_out_def by auto
    from d have "timed_out cb (clock w + (if dryRun then 100 else 10000)) r w'
                   ([(lastPorts, None)] @ new)
        \<or> enumeration_failed r ([(lastPorts, None)] @ new)
        \<or> found_stable cb lastPorts r w' new"
      using timed_out_extend [OF t' ok] enumeration_failed_extend [OF _ ok] by blast
    then have "timed_out cb (clock w + (if dryRun then 100 else 10000)) r w'
                   ((lastPorts, None) # new)
        \<or> enumeration_failed r ((lastPorts, None) # new)
        \<or> found_stable cb lastPorts r w' new"
      by simp
    moreover have "snapshots w' = snapshots w @ ((lastPorts, None) # new)"
      using s by simp
    ultimately show ?thesis by blast
  qed
qed


lemma Reset_nowait_outcome:
  assumes "Reset env portToTouch False dryRun portsMapper cb w = (r, w')"
  shows "\<exists>lastPorts err. snapshots w' = snapshots w @ [(lastPorts, err)] \<and> fst r = '''' \<and>
           (\<forall>e. err = Some e \<longrightarrow> r = ('''', Some e))"
proof -
  let ?pm = "select_mapper dryRun portsMapper"
  let ?w0 = "if dryRun then w\<lparr>emulatedPort := portToTouch\<rparr> else w"
  obtain lastPorts err w1 where first: "portsMapper_call env ?pm ?w0 = ((lastPorts, err), w1)"
    by (metis prod.exhaust)
  have s1: "snapshots w1 = snapshots w @ [(lastPorts, err)]"
    using snapshots_portsMapper_call [OF first] by (simp split: if_splits)
  let ?w2 = "debug cb (Sprintf ''LAST: %v'' (ArgMap lastPorts)) w1"
  show ?thesis
  proof (cases err)
    case (Some e)
    with assms Reset_first_failed [OF first [unfolded Some], of False cb]
    have "r = ('''', Some e)" and "w' = ?w2" by simp_all
    with s1 Some show ?thesis by simp
  next
    case None
    obtain te w3 where t: "touch_phase env cb portToTouch False dryRun lastPorts ?w2 = (te, w3)"
      by (metis prod.exhaust)
    have s3: "snapshots w3 = snapshots ?w2"
      using touch_phase_snapshots [of env cb portToTouch False dryRun lastPorts ?w2] t by simp
    have "fst r = '''' \<and> w' = w3"
      using Reset_first_ok [OF first [unfolded None], of False cb] t assms
      by (cases te) (auto simp: wait_phase_def)
    with s3 s1 None show ?thesis by simp
  qed
qed

lemma not_HasSuffix_999_0 [simp]: "\<not> HasSuffix (s @ ''0'') ''999''"
proof
  assume "HasSuffix (s @ ''0'') ''999''"
  then have l: "3 \<le> length (s @ ''0'')"
    and d: "drop (length (s @ ''0'') - 3) (s @ ''0'') = ''999''"
    by (simp_all add: HasSuffix_def)
  from l have "length (s @ ''0'') - 3 < length (s @ ''0'')" by simp
  then have "last (drop (length (s @ ''0'') - 3) (s @ ''0'')) = last (s @ ''0'')"
    by (rule last_drop)
  with d show False by simp
qed

lemma HasSuffix_nonempty: "HasSuffix s ''999'' \<Longrightarrow> s \<noteq> ''''"
  by (auto simp: HasSuffix_def)

lemma not_HasSuffix_newport [simp]: "\<not> HasSuffix ''newport'' ''999''"
  by (simp add: HasSuffix_def)

lemma nth_emulated_settled:
  "\<not> HasSuffix ep ''999'' \<Longrightarrow> ep \<noteq> '''' \<Longrightarrow> nth_emulated n ep = ([(ep, True)], None)"
  by (induction n) (simp_all add: emulator_def)

lemma emulatedPort_emit [simp]: "emulatedPort (emit e w) = emulatedPort w"
  by (simp add: emit_def)

lemma emulatedPort_Sleep [simp]: "emulatedPort (Sleep ms w) = emulatedPort w"
  by (simp add: Sleep_def)

lemma emulatedPort_debug [simp]: "emulatedPort (debug cb msg w) = emulatedPort w"
  by (simp add: debug_def split: option.splits)

lemma emulatedPort_touchingPort [simp]: "emulatedPort (touchingPort cb p w) = emulatedPort w"
  by (simp add: touchingPort_def split: option.splits)

lemma emulatedPort_waitingForNewSerial [simp]:
  "emulatedPort (waitingForNewSerial cb w) = emulatedPort w"
  by (simp add: waitingForNewSerial_def split: option.splits)

lemma emulatedPort_bootloaderPortFound [simp]:
  "emulatedPort (bootloaderPortFound cb p w) = emulatedPort w"
  by (simp add: bootloaderPortFound_def split: option.splits)

lemma emulatedPort_record_snapshot [simp]:
  "emulatedPort (record_snapshot r w) = emulatedPort w"
  by (simp add: record_snapshot_def)

lemma Emulator_call:
  "portsMapper_call env Emulator w =
     (fst (emulator (emulatedPort w)),
      record_snapshot (fst (emulator (emulatedPort w)))
        (w\<lparr>emulatedPort := snd (emulator (emulatedPort w))\<rparr>))"
  by (simp add: Let_def split: prod.splits)

lemma trace_record_snapshot [simp]: "trace (record_snapshot r w) = trace w"
  by (simp add: record_snapshot_def)



lemma Touch1200bps_trace:
  "\<exists>evs. trace (snd (Touch1200bps env port w)) = trace w @ evs \<and>
         set evs \<subseteq> {SerialOpen port 1200, SerialSetDTR False, SerialClose}"
proof (cases "serial_Open env port 1200")
  case (Some e)
  then have "trace (snd (Touch1200bps env port w)) = trace w @ [SerialOpen port 1200]"
    by (simp add: Touch1200bps_def emit_def Let_def)
  then show ?thesis by (intro exI [of _ "[SerialOpen port 1200]"]) simp
next
  case None
  show ?thesis
  proof (cases "GOOS env \<noteq> ''windows''")
    case True
    with None have "trace (snd (Touch1200bps env port w)) =
        trace w @ [SerialOpen port 1200, SerialSetDTR False, SerialClose]"
      by (simp add: Touch1200bps_def emit_def Sleep_def Let_def split: option.splits)
    then show ?thesis
      by (intro exI [of _ "[SerialOpen port 1200, SerialSetDTR False, SerialClose]"]) simp
  next
    case False
    with None have "trace (snd (Touch1200bps env port w)) =
        trace w @ [SerialOpen port 1200, SerialClose]"
      by (simp add: Touch1200bps_def emit_def Sleep_def Let_def)
    then show ?thesis
      by (intro exI [of _ "[SerialOpen port 1200, SerialClose]"]) simp
  qed
qed

section \<open>The claims\<close>

subsection \<open>C1\<close>




subsection \<open>C2\<close>



subsection \<open>C3\<close>

text \<open>
  Claim C3, as stated: the baseline \<^verbatim>\<open>last\<close> always is the most recent successful
  enumeration, also after a stabilization check. It fails: line 197 assigns \<open>now\<close>, so
  after a check that found nothing the more recent \<open>check\<close> snapshot is dropped. In the
  run below the snapshots are \<open>{}\<close>, \<open>{a}\<close> (flagged), \<open>{}\<close> (the check), \<open>{a}\<close>, then an
  error: the second \<open>{a}\<close> is not flagged as new, although the most recent enumeration
  before it, the check, is empty. The second conjunct shows the value of \<^verbatim>\<open>last\<close> after
  one such iteration: \<open>{a}\<close>, while the last enumeration returned \<open>{}\<close>.
\<close>

theorem Reset_diffs_against_older_snapshot:
  "Reset linux '''' True False (Some reappearing_script) (Some debug_only) idle =
     (('''', Some (Err ''enumeration failed'')),
      \<lparr>clock = 1500,
       snapshots = [([], None), ([(''a'', True)], None), ([], None), ([(''a'', True)], None),
                    ([], Some (Err ''enumeration failed''))],
       emulatedPort = '''',
       trace = [CallDebug (Sprintf ''LAST: %v'' (ArgMap [])),
                CallDebug (Sprintf ''WAIT: %v'' (ArgMap [(''a'', True)])),
                CallDebug (Literal ''New ports found!''),
                CallDebug (Sprintf ''CHECK: %v'' (ArgMap [])),
                CallDebug (Literal ''Port check failed... still waiting''),
                CallDebug (Sprintf ''WAIT: %v'' (ArgMap [(''a'', True)]))]\<rparr>)
   \<and> poll linux (Supplied glitch_script) None [] idle =
       Continue [(''a'', True)]
         \<lparr>clock = 1250, snapshots = [([(''a'', True)], None), ([], None)],
          emulatedPort = '''', trace = []\<rparr>"
  by (simp add: run_defs example_defs debug_only_def reappearing_script_def glitch_script_def)

text \<open>
  Claim C3, amended: when an iteration of the polling loop goes on, the loop continues
  with \<^verbatim>\<open>last\<close> equal to \<open>now\<close>, the first snapshot of that iteration. That is the
  most recent enumeration when the iteration flagged no new port; when it flagged one,
  a \<open>check\<close> snapshot was taken after \<open>now\<close>, held no port new against the old baseline,
  and is not used as a baseline. (The first iteration starts from the initial snapshot.)
\<close>

theorem poll_baseline:
  assumes "poll env pm cb lastPorts w = Continue now w'" and "clock w < deadline"
  shows "wait_loop env pm cb deadline lastPorts w = wait_loop env pm cb deadline now w'
    \<and> ((snapshots w' = snapshots w @ [(now, None)] \<and>
          \<not> list_ex (\<lambda>p. \<not> lookup lastPorts p) (range_keys now))
       \<or> (\<exists>check. snapshots w' = snapshots w @ [(now, None), (check, None)] \<and>
            list_ex (\<lambda>p. \<not> lookup lastPorts p) (range_keys now) \<and>
            (\<forall>p \<in> set (range_keys check). lookup lastPorts p)))"
proof
  show "wait_loop env pm cb deadline lastPorts w = wait_loop env pm cb deadline now w'"
    using assms by (simp add: wait_loop.simps [of env pm cb deadline lastPorts w])
next
  show "(snapshots w' = snapshots w @ [(now, None)] \<and>
          \<not> list_ex (\<lambda>p. \<not> lookup lastPorts p) (range_keys now))
       \<or> (\<exists>check. snapshots w' = snapshots w @ [(now, None), (check, None)] \<and>
            list_ex (\<lambda>p. \<not> lookup lastPorts p) (range_keys now) \<and>
            (\<forall>p \<in> set (range_keys check). lookup lastPorts p))"
  proof (cases rule: poll_cases [of env pm w cb lastPorts])
    case (nothing_new now' w1)
    with assms(1) have "now' = now"
      and "w' = Sleep 250 (debug cb (Sprintf ''WAIT: %v'' (ArgMap now')) w1)" by auto
    then show ?thesis
      using snapshots_portsMapper_call [OF nothing_new(1)] nothing_new(2) by simp
  next
    case (glitch now' w1 check w5)
    with assms(1) have e: "now' = now"
      and w': "w' = Sleep 250 (debug cb (Literal ''Port check failed... still waiting'')
              (debug cb (Sprintf ''CHECK: %v'' (ArgMap check)) w5))" by auto
    have s: "snapshots w' = snapshots w @ [(now, None), (check, None)]"
      using snapshots_portsMapper_call [OF glitch(1)]
        snapshots_portsMapper_call [OF glitch(3)] e w' by simp
    have "\<forall>p \<in> set (range_keys check). lookup lastPorts p"
      using glitch(4) by (auto simp: find_None_iff)
    with s glitch(2) e show ?thesis by blast
  next
    case (now_failed now e w1)
    with assms(1) show ?thesis by simp
  next
    case (check_failed now w1 check e w5)
    with assms(1) show ?thesis by simp
  next
    case (found now w1 check w5 p)
    with assms(1) show ?thesis by simp
  qed
qed

theorem poll_baseline_witness:
  "poll linux (Supplied glitch_script) None [] idle =
     Continue [(''a'', True)]
       \<lparr>clock = 1250, snapshots = [([(''a'', True)], None), ([], None)],
        emulatedPort = '''', trace = []\<rparr>
   \<and> clock idle < 10000
   \<and> wait_loop linux (Supplied glitch_script) None 10000 [] idle =
       wait_loop linux (Supplied glitch_script) None 10000 [(''a'', True)]
         \<lparr>clock = 1250, snapshots = [([(''a'', True)], None), ([], None)],
          emulatedPort = '''', trace = []\<rparr>"
proof -
  have p: "poll linux (Supplied glitch_script) None [] idle =
     Continue [(''a'', True)]
       \<lparr>clock = 1250, snapshots = [([(''a'', True)], None), ([], None)],
        emulatedPort = '''', trace = []\<rparr>"
    by (simp add: poll_def lookup_def range_keys_def debug_def Sleep_def record_snapshot_def
        Let_def example_defs glitch_script_def)
  have c: "clock idle < 10000" by (simp add: idle_def)
  show ?thesis
    using p c poll_baseline [OF p c] by simp
qed

subsection \<open>C4\<close>

text \<open>
  Claim C4: a dry run of \<^verbatim>\<open>Reset\<close> with \<^verbatim>\<open>wait = true\<close> returns the target followed
  by \<^verbatim>\<open>0\<close> if the target ends in \<^verbatim>\<open>999\<close>, \<^verbatim>\<open>newport\<close> if the target is empty, and
  the empty port for any other target, always without error; in the last case it
  returns after the 250 ms sleep that carries the clock past the 100 ms deadline.
\<close>

theorem Reset_dry_run:
  "fst (Reset env target True True portsMapper cb w) =
     (if HasSuffix target ''999'' then (target @ ''0'', None)
      else if target = '''' then (''newport'', None) else ('''', None))
   \<and> (\<not> HasSuffix target ''999'' \<and> target \<noteq> '''' \<longrightarrow>
        clock (snd (Reset env target True True portsMapper cb w)) = clock w + 250)"
proof -
  consider (a) "HasSuffix target ''999''" | (b) "target = ''''"
    | (c) "\<not> HasSuffix target ''999''" "target \<noteq> ''''"
    by blast
  then show ?thesis
  proof cases
    case a
    then have "target \<noteq> ''''" by (rule HasSuffix_nonempty)
    with a show ?thesis
      by (simp add: Reset_def select_mapper_def touch_phase_def wait_phase_def
          wait_loop.simps poll_def Emulator_call emulator_def lookup_def range_keys_def
          Let_def del: portsMapper_call.simps)
  next
    case b
    then show ?thesis
      by (simp add: Reset_def select_mapper_def touch_phase_def wait_phase_def
          wait_loop.simps poll_def Emulator_call emulator_def lookup_def range_keys_def
          HasSuffix_def Let_def del: portsMapper_call.simps)
  next
    case c
    then show ?thesis
      by (simp add: Reset_def select_mapper_def touch_phase_def wait_phase_def
          wait_loop.simps poll_def Emulator_call emulator_def lookup_def range_keys_def
          Let_def del: portsMapper_call.simps)
  qed
qed

theorem Reset_dry_run_witness:
  "fst (Reset linux ''/dev/ttyACM999'' True True None None idle) = (''/dev/ttyACM9990'', None)
   \<and> fst (Reset linux '''' True True None None idle) = (''newport'', None)
   \<and> \<not> HasSuffix ''/dev/ttyACM0'' ''999'' \<and> ''/dev/ttyACM0'' \<noteq> ''''
   \<and> fst (Reset linux ''/dev/ttyACM0'' True True None None idle) = ('''', None)
   \<and> clock (snd (Reset linux ''/dev/ttyACM0'' True True None None idle)) = clock idle + 250"
proof -
  have h: "\<not> HasSuffix ''/dev/ttyACM0'' ''999'' \<and> ''/dev/ttyACM0'' \<noteq> ''''"
    by (simp add: HasSuffix_def)
  have k: "HasSuffix ''/dev/ttyACM999'' ''999'' \<and> \<not> HasSuffix '''' ''999''"
    by (simp add: HasSuffix_def)
  show ?thesis
    using h k Reset_dry_run [of linux "''/dev/ttyACM999''" None None idle]
      Reset_dry_run [of linux "''''" None None idle]
      Reset_dry_run [of linux "''/dev/ttyACM0''" None None idle]
    by simp
qed

subsection \<open>C5\<close>

text \<open>
  Claim C5, as stated: with \<^verbatim>\<open>wait = true\<close> a failed touch is logged through the
  \<^verbatim>\<open>Debug\<close> callback. It fails: line 129 drops the error. In the run below opening
  the port fails, every callback is set, and the trace shows no \<^verbatim>\<open>Debug\<close> call
  between the serial operation and \<^verbatim>\<open>WaitingForNewSerial\<close>.
\<close>

theorem Reset_touch_error_not_logged:
  "Reset open_fails ''a'' True False (Some new_port_script) (Some all_callbacks) idle =
     ((''b'', None),
      \<lparr>clock = 1000,
       snapshots = [([(''a'', True)], None), ([(''a'', True), (''b'', True)], None),
                    ([(''a'', True), (''b'', True)], None)],
       emulatedPort = '''',
       trace = [CallDebug (Sprintf ''LAST: %v'' (ArgMap [(''a'', True)])),
                CallDebug (Sprintf ''TOUCH: %v'' (ArgString ''a'')),
                CallTouchingPort ''a'',
                SerialOpen ''a'' 1200,
                CallWaitingForNewSerial,
                CallDebug (Sprintf ''WAIT: %v'' (ArgMap [(''a'', True), (''b'', True)])),
                CallDebug (Literal ''New ports found!''),
                CallDebug (Sprintf ''CHECK: %v'' (ArgMap [(''a'', True), (''b'', True)])),
                CallBootloaderPortFound ''b'']\<rparr>)
   \<and> fst (Touch1200bps open_fails ''a'' idle) =
        Some (Errorf ''opening port at 1200bps: '' (Err ''Open failed''))"
  by (simp add: run_defs example_defs open_fails_def new_port_script_def)

text \<open>
  Claim C5, amended: when the touch is attempted (the target is not empty and present
  in the initial snapshot, outside dry-run mode) and fails with \<open>e\<close>: with
  \<^verbatim>\<open>wait = false\<close>, \<^verbatim>\<open>Reset\<close> returns the empty port and \<open>e\<close> wrapped as
  \<^verbatim>\<open>1200-bps touch\<close>; with \<^verbatim>\<open>wait = true\<close> the error is dropped without any callback
  being invoked for it (the touch adds serial operations only to the trace) and
  \<^verbatim>\<open>Reset\<close> goes on to the waiting phase: \<^verbatim>\<open>WaitingForNewSerial\<close>, then the polling
  loop with the 10 s deadline.
\<close>

theorem Reset_touch_fails:
  assumes "portsMapper_call env (select_mapper False portsMapper) w = ((lastPorts, None), w1)"
    and "portToTouch \<noteq> ''''" and "lookup lastPorts portToTouch"
    and "w2 = touchingPort cb portToTouch
                (debug cb (Sprintf ''TOUCH: %v'' (ArgString portToTouch))
                  (debug cb (Sprintf ''LAST: %v'' (ArgMap lastPorts)) w1))"
    and "Touch1200bps env portToTouch w2 = (Some e, w3)"
  shows "Reset env portToTouch False False portsMapper cb w =
           (('''', Some (Errorf ''1200-bps touch: '' e)), w3)
    \<and> Reset env portToTouch True False portsMapper cb w =
           wait_loop env (select_mapper False portsMapper) cb (clock w3 + 10000) lastPorts
             (waitingForNewSerial cb w3)
    \<and> (\<exists>evs. trace w3 = trace w2 @ evs \<and>
          set evs \<subseteq> {SerialOpen portToTouch 1200, SerialSetDTR False, SerialClose})"
proof (intro conjI)
  have t: "\<And>wait. touch_phase env cb portToTouch wait False lastPorts
             (debug cb (Sprintf ''LAST: %v'' (ArgMap lastPorts)) w1) =
           (if \<not> wait then (Some (Errorf ''1200-bps touch: '' e), w3) else (None, w3))"
    using assms(2-5) by (simp add: touch_phase_def Let_def)
  have r: "\<And>wait. Reset env portToTouch wait False portsMapper cb w =
           (case touch_phase env cb portToTouch wait False lastPorts
                   (debug cb (Sprintf ''LAST: %v'' (ArgMap lastPorts)) w1) of
              (Some e, w3) \<Rightarrow> (('''', Some e), w3)
            | (None, w3) \<Rightarrow>
                wait_phase env (select_mapper False portsMapper) cb wait False lastPorts w3)"
    using Reset_first_ok [of env False portsMapper portToTouch w lastPorts w1] assms(1)
    by simp
  show "Reset env portToTouch False False portsMapper cb w =
           (('''', Some (Errorf ''1200-bps touch: '' e)), w3)"
    by (simp add: r t)
  show "Reset env portToTouch True False portsMapper cb w =
           wait_loop env (select_mapper False portsMapper) cb (clock w3 + 10000) lastPorts
             (waitingForNewSerial cb w3)"
    by (simp add: r t wait_phase_def Let_def)
  show "\<exists>evs. trace w3 = trace w2 @ evs \<and>
          set evs \<subseteq> {SerialOpen portToTouch 1200, SerialSetDTR False, SerialClose}"
    using Touch1200bps_trace [of env portToTouch w2] assms(5) by simp
qed

theorem Reset_touch_fails_witness:
  "portsMapper_call open_fails (select_mapper False (Some new_port_script)) idle =
      (([(''a'', True)], None), idle\<lparr>snapshots := [([(''a'', True)], None)]\<rparr>)
   \<and> ''a'' \<noteq> '''' \<and> lookup [(''a'', True)] ''a''
   \<and> Touch1200bps open_fails ''a'' (idle\<lparr>snapshots := [([(''a'', True)], None)]\<rparr>) =
        (Some (Errorf ''opening port at 1200bps: '' (Err ''Open failed'')),
         idle\<lparr>snapshots := [([(''a'', True)], None)], trace := [SerialOpen ''a'' 1200]\<rparr>)
   \<and> Reset open_fails ''a'' False False (Some new_port_script) None idle =
        (('''', Some (Errorf ''1200-bps touch: ''
                 (Errorf ''opening port at 1200bps: '' (Err ''Open failed'')))),
         idle\<lparr>snapshots := [([(''a'', True)], None)], trace := [SerialOpen ''a'' 1200]\<rparr>)
   \<and> Reset open_fails ''a'' True False (Some new_port_script) None idle =
        wait_loop open_fails (select_mapper False (Some new_port_script)) None (0 + 10000)
          [(''a'', True)]
          (waitingForNewSerial None
             (idle\<lparr>snapshots := [([(''a'', True)], None)], trace := [SerialOpen ''a'' 1200]\<rparr>))"
proof -
  let ?w1 = "idle\<lparr>snapshots := [([(''a'', True)], None)]\<rparr>"
  let ?w3 = "idle\<lparr>snapshots := [([(''a'', True)], None)], trace := [SerialOpen ''a'' 1200]\<rparr>"
  have c: "portsMapper_call open_fails (select_mapper False (Some new_port_script)) idle =
      (([(''a'', True)], None), ?w1)"
    by (simp add: select_mapper_def new_port_script_def record_snapshot_def idle_def Let_def)
  have n: "''a'' \<noteq> ''''" by simp
  have l: "lookup [(''a'', True)] ''a''" by (simp add: lookup_def)
  have w2: "?w1 = touchingPort None ''a''
                (debug None (Sprintf ''TOUCH: %v'' (ArgString ''a''))
                  (debug None (Sprintf ''LAST: %v'' (ArgMap [(''a'', True)])) ?w1))"
    by (simp add: touchingPort_def debug_def)
  have t: "Touch1200bps open_fails ''a'' ?w1 =
        (Some (Errorf ''opening port at 1200bps: '' (Err ''Open failed'')), ?w3)"
    by (simp add: Touch1200bps_def open_fails_def linux_def emit_def idle_def Let_def)
  have k: "clock ?w3 = 0" by (simp add: idle_def)
  show ?thesis
    using c n l t k Reset_touch_fails [OF c n l w2 t] by simp
qed

subsection \<open>C6\<close>




subsection \<open>C7\<close>

text \<open>
  Claim C7, as stated: every invocation of the emulator reports a non-empty target port
  as present. It fails for a target ending in \<^verbatim>\<open>999\<close>: the closure overwrites
  \<^verbatim>\<open>emulatedPort\<close>, so from its second invocation on it reports the new port only.
\<close>

theorem emulator_second_call_drops_target:
  "nth_emulated 1 ''999'' = ([(''9990'', True)], None)
   \<and> \<not> lookup (fst (nth_emulated 1 ''999'')) ''999''"
  by (simp add: emulator_def HasSuffix_def lookup_def)

text \<open>
  Claim C7, amended: the first invocation of the emulator reports exactly the target
  port, if it is not empty, and nothing otherwise. Every later invocation reports exactly
  one port: the target followed by \<^verbatim>\<open>0\<close> if the target ends in \<^verbatim>\<open>999\<close> (the target
  itself is then no longer reported), \<^verbatim>\<open>newport\<close> if the target is empty, and the
  target itself otherwise. No invocation returns an error.
\<close>

theorem emulator_reports:
  "nth_emulated 0 target = (if target \<noteq> '''' then [(target, True)] else [], None)
   \<and> nth_emulated (Suc n) target =
       ([(if HasSuffix target ''999'' then target @ ''0''
          else if target = '''' then ''newport'' else target, True)], None)"
proof
  show "nth_emulated 0 target = (if target \<noteq> '''' then [(target, True)] else [], None)"
    by (simp add: emulator_def)
next
  have "snd (emulator target) =
      (if HasSuffix target ''999'' then target @ ''0''
       else if target = '''' then ''newport'' else target)"
    by (simp add: emulator_def)
  moreover have "\<not> HasSuffix (if HasSuffix target ''999'' then target @ ''0''
       else if target = '''' then ''newport'' else target) ''999''"
    by simp
  moreover have "(if HasSuffix target ''999'' then target @ ''0''
       else if target = '''' then ''newport'' else target) \<noteq> ''''"
    by simp
  ultimately show "nth_emulated (Suc n) target =
       ([(if HasSuffix target ''999'' then target @ ''0''
          else if target = '''' then ''newport'' else target, True)], None)"
    using nth_emulated_settled by simp
qed

theorem emulator_reports_witness:
  "nth_emulated 0 ''/dev/ttyACM999'' = ([(''/dev/ttyACM999'', True)], None)
   \<and> nth_emulated (Suc 0) ''/dev/ttyACM999'' = ([(''/dev/ttyACM9990'', True)], None)
   \<and> nth_emulated (Suc 2) '''' = ([(''newport'', True)], None)
   \<and> nth_emulated (Suc 1) ''/dev/ttyACM0'' = ([(''/dev/ttyACM0'', True)], None)"
  using emulator_reports [of "''/dev/ttyACM999''" 0] emulator_reports [of "''''" 2]
    emulator_reports [of "''/dev/ttyACM0''" 1]
  by (simp add: HasSuffix_def)

subsection \<open>C8\<close>



subsection \<open>C9\<close>

text \<open>
  Claim C9: when \<^verbatim>\<open>Touch1200bps\<close> has opened the port, closing it is the last serial
  operation before the function returns, on every path. When clearing DTR fails, the port
  is closed all the same and the function returns the error wrapped as
  \<^verbatim>\<open>setting DTR to OFF\<close>. When opening fails, the function returns the error wrapped as
  \<^verbatim>\<open>opening port at 1200bps\<close> and performs no other serial operation.
\<close>

theorem Touch1200bps_closes_port:
  "(serial_Open env port 1200 = None \<longrightarrow>
      (\<exists>evs. trace (snd (Touch1200bps env port w)) =
               trace w @ SerialOpen port 1200 # evs @ [SerialClose]
             \<and> set evs \<subseteq> {SerialSetDTR False}))
   \<and> (serial_Open env port 1200 = None \<and> GOOS env \<noteq> ''windows''
        \<and> serial_SetDTR env False = Some e \<longrightarrow>
      Touch1200bps env port w =
        (Some (Errorf ''setting DTR to OFF: '' e),
         w\<lparr>trace := trace w @ [SerialOpen port 1200, SerialSetDTR False, SerialClose]\<rparr>))
   \<and> (serial_Open env port 1200 = Some e \<longrightarrow>
      Touch1200bps env port w =
        (Some (Errorf ''opening port at 1200bps: '' e),
         w\<lparr>trace := trace w @ [SerialOpen port 1200]\<rparr>))"
proof (intro conjI impI)
  assume o: "serial_Open env port 1200 = None"
  show "\<exists>evs. trace (snd (Touch1200bps env port w)) =
               trace w @ SerialOpen port 1200 # evs @ [SerialClose]
             \<and> set evs \<subseteq> {SerialSetDTR False}"
  proof (cases "GOOS env \<noteq> ''windows''")
    case True
    with o have "trace (snd (Touch1200bps env port w)) =
               trace w @ SerialOpen port 1200 # [SerialSetDTR False] @ [SerialClose]"
      by (simp add: Touch1200bps_def emit_def Sleep_def Let_def split: option.splits)
    then show ?thesis by (intro exI [of _ "[SerialSetDTR False]"]) simp
  next
    case False
    with o have "trace (snd (Touch1200bps env port w)) =
               trace w @ SerialOpen port 1200 # [] @ [SerialClose]"
      by (simp add: Touch1200bps_def emit_def Sleep_def Let_def)
    then show ?thesis by (intro exI [of _ "[]"]) simp
  qed
next
  assume "serial_Open env port 1200 = None \<and> GOOS env \<noteq> ''windows''
        \<and> serial_SetDTR env False = Some e"
  then show "Touch1200bps env port w =
        (Some (Errorf ''setting DTR to OFF: '' e),
         w\<lparr>trace := trace w @ [SerialOpen port 1200, SerialSetDTR False, SerialClose]\<rparr>)"
    by (simp add: Touch1200bps_def emit_def Let_def)
next
  assume "serial_Open env port 1200 = Some e"
  then show "Touch1200bps env port w =
        (Some (Errorf ''opening port at 1200bps: '' e),
         w\<lparr>trace := trace w @ [SerialOpen port 1200]\<rparr>)"
    by (simp add: Touch1200bps_def emit_def Let_def)
qed

theorem Touch1200bps_closes_port_witness:
  "serial_Open dtr_fails ''/dev/ttyACM0'' 1200 = None \<and> GOOS dtr_fails \<noteq> ''windows''
   \<and> serial_SetDTR dtr_fails False = Some (Err ''SetDTR failed'')
   \<and> Touch1200bps dtr_fails ''/dev/ttyACM0'' idle =
        (Some (Errorf ''setting DTR to OFF: '' (Err ''SetDTR failed'')),
         idle\<lparr>trace := trace idle @
            [SerialOpen ''/dev/ttyACM0'' 1200, SerialSetDTR False, SerialClose]\<rparr>)
   \<and> serial_Open open_fails ''/dev/ttyACM0'' 1200 = Some (Err ''Open failed'')
   \<and> Touch1200bps open_fails ''/dev/ttyACM0'' idle =
        (Some (Errorf ''opening port at 1200bps: '' (Err ''Open failed'')),
         idle\<lparr>trace := trace idle @ [SerialOpen ''/dev/ttyACM0'' 1200]\<rparr>)
   \<and> (\<exists>evs. trace (snd (Touch1200bps linux ''/dev/ttyACM0'' idle)) =
               trace idle @ SerialOpen ''/dev/ttyACM0'' 1200 # evs @ [SerialClose]
             \<and> set evs \<subseteq> {SerialSetDTR False})"
proof -
  have a: "serial_Open dtr_fails ''/dev/ttyACM0'' 1200 = None \<and> GOOS dtr_fails \<noteq> ''windows''
       \<and> serial_SetDTR dtr_fails False = Some (Err ''SetDTR failed'')"
    by (simp add: dtr_fails_def linux_def)
  have b: "serial_Open open_fails ''/dev/ttyACM0'' 1200 = Some (Err ''Open failed'')"
    by (simp add: open_fails_def linux_def)
  have c: "serial_Open linux ''/dev/ttyACM0'' 1200 = None"
    by (simp add: linux_def)
  show ?thesis
    using a b c
      Touch1200bps_closes_port [of dtr_fails "''/dev/ttyACM0''" idle "Err ''SetDTR failed''"]
      Touch1200bps_closes_port [of open_fails "''/dev/ttyACM0''" idle "Err ''Open failed''"]
      Touch1200bps_closes_port [of linux "''/dev/ttyACM0''" idle "Err ''Open failed''"]
    by blast
qed

subsection \<open>C10\<close>

text \<open>
  Claim C10: \<^verbatim>\<open>Reset\<close> never returns a non-empty port name together with an error:
  when the error is not \<^verbatim>\<open>nil\<close> the port is empty, and when the port is not empty the
  error is \<^verbatim>\<open>nil\<close>.
\<close>

theorem Reset_port_or_error:
  "(snd (fst (Reset env portToTouch wait dryRun portsMapper cb w)) \<noteq> None \<longrightarrow>
      fst (fst (Reset env portToTouch wait dryRun portsMapper cb w)) = '''')
   \<and> (fst (fst (Reset env portToTouch wait dryRun portsMapper cb w)) \<noteq> '''' \<longrightarrow>
      snd (fst (Reset env portToTouch wait dryRun portsMapper cb w)) = None)"
proof -
  obtain r w' where run: "Reset env portToTouch wait dryRun portsMapper cb w = (r, w')"
    by (metis prod.exhaust)
  have "fst r = '''' \<or> snd r = None"
  proof (cases wait)
    case False
    with run have "Reset env portToTouch False dryRun portsMapper cb w = (r, w')" by simp
    from Reset_nowait_outcome [OF this] show ?thesis by blast
  next
    case True
    with run have "Reset env portToTouch True dryRun portsMapper cb w = (r, w')" by simp
    from Reset_wait_outcome [OF this] obtain new where
      "timed_out cb (clock w + (if dryRun then 100 else 10000)) r w' new
          \<or> enumeration_failed r new
          \<or> (\<exists>lastPorts rest. new = (lastPorts, None) # rest \<and>
                found_stable cb lastPorts r w' rest)"
      by blast
    then show ?thesis
      unfolding timed_out_def enumeration_failed_def found_stable_def by auto
  qed
  with run show ?thesis by auto
qed

theorem Reset_port_or_error_witness:
  "fst (fst (Reset linux '''' True False (Some other_port_script) None idle)) \<noteq> ''''
   \<and> snd (fst (Reset linux '''' True False (Some other_port_script) None idle)) = None
   \<and> snd (fst (Reset linux '''' True False (Some failing_script) None idle)) \<noteq> None
   \<and> fst (fst (Reset linux '''' True False (Some failing_script) None idle)) = ''''"
proof -
  have a: "fst (fst (Reset linux '''' True False (Some other_port_script) None idle)) \<noteq> ''''"
    by (simp add: run_defs example_defs other_port_script_def)
  have b: "snd (fst (Reset linux '''' True False (Some failing_script) None idle)) \<noteq> None"
    by (simp add: run_defs example_defs failing_script_def)
  show ?thesis
    using a b
      Reset_port_or_error [of linux "''''" True False "Some other_port_script" None idle]
      Reset_port_or_error [of linux "''''" True False "Some failing_script" None idle]
    by blast
qed

end
